theory Spec2Isabelle
  imports Complex_Main "HOL-Library.Word" "HOL-Library.Sublist"
begin

section \<open>Python strings\<close>

text \<open>
  A Python \<open>str\<close> is modelled as a \<open>string\<close>: a list of characters, each one a code point
  below 256. The operations below are the \<open>str\<close> methods that the repository calls.
\<close>

text \<open>\<open>str.isspace\<close> on one character, for the code points below 256: tab to carriage
  return, the four separators 28 to 31, space, NEL and the no-break space. The regular
  expression class \<open>\s\<close> of a \<open>str\<close> pattern is the same set.\<close>

definition py_isspace :: "char \<Rightarrow> bool" where
  "py_isspace c =
     (let n = (of_char c :: nat)
      in (9 \<le> n \<and> n \<le> 13) \<or> (28 \<le> n \<and> n \<le> 32) \<or> n = 133 \<or> n = 160)"

text \<open>\<open>s.strip()\<close>\<close>

definition str_strip :: "string \<Rightarrow> string" where
  "str_strip s = rev (dropWhile py_isspace (rev (dropWhile py_isspace s)))"

text \<open>\<open>s.endswith(suffix)\<close>\<close>

definition str_endswith :: "string \<Rightarrow> string \<Rightarrow> bool" where
  "str_endswith s sfx = suffix sfx s"

text \<open>The leftmost occurrence of \<open>sep\<close> in \<open>s\<close>: the text before it and the text after it.\<close>

fun split_once :: "string \<Rightarrow> string \<Rightarrow> (string \<times> string) option" where
  "split_once sep [] = (if sep = [] then Some ([], []) else None)"
| "split_once sep (c # cs) =
     (if prefix sep (c # cs) then Some ([], drop (length sep) (c # cs))
      else (case split_once sep cs of
              None \<Rightarrow> None
            | Some (b, a) \<Rightarrow> Some (c # b, a)))"

text \<open>\<open>sep in s\<close>\<close>

definition str_contains :: "string \<Rightarrow> string \<Rightarrow> bool" where
  "str_contains sep s = (split_once sep s \<noteq> None)"

text \<open>\<open>s.split(sep, 1)\<close>\<close>

definition str_split1 :: "string \<Rightarrow> string \<Rightarrow> string list" where
  "str_split1 sep s = (case split_once sep s of None \<Rightarrow> [s] | Some (b, a) \<Rightarrow> [b, a])"

text \<open>\<open>s.replace(old, new, 1)\<close>\<close>

definition str_replace1 :: "string \<Rightarrow> string \<Rightarrow> string \<Rightarrow> string" where
  "str_replace1 old new s =
     (case split_once old s of None \<Rightarrow> s | Some (b, a) \<Rightarrow> b @ new @ a)"

lemma split_once_shorter:
  "split_once sep s = Some (b, a) \<Longrightarrow> sep \<noteq> [] \<Longrightarrow> length a < length s"
proof (induction s arbitrary: b)
  case Nil
  then show ?case by simp
next
  case (Cons c cs)
  show ?case
  proof (cases "prefix sep (c # cs)")
    case True
    with Cons.prems show ?thesis by auto
  next
    case False
    with Cons.prems obtain b' where "split_once sep cs = Some (b', a)"
      by (auto split: option.splits)
    with Cons.IH Cons.prems(2) show ?thesis by fastforce
  qed
qed

text \<open>\<open>s.split(sep)\<close>: every occurrence, leftmost first, not overlapping. Python raises
  ValueError for an empty separator; every call in the repository passes a non-empty
  literal, and the model returns \<open>[s]\<close> there.\<close>

function str_split :: "string \<Rightarrow> string \<Rightarrow> string list" where
  "str_split sep s =
     (if sep = [] then [s]
      else (case split_once sep s of
              None \<Rightarrow> [s]
            | Some (b, a) \<Rightarrow> b # str_split sep a))"
  by pat_completeness auto
termination
  by (relation "measure (\<lambda>(sep, s). length s)") (auto dest: split_once_shorter)

declare str_split.simps [simp del]

text \<open>\<open>sep.join(xs)\<close>\<close>

fun str_join :: "string \<Rightarrow> string list \<Rightarrow> string" where
  "str_join sep [] = []"
| "str_join sep [x] = x"
| "str_join sep (x # y # ys) = x @ sep @ str_join sep (y # ys)"

section \<open>Exceptions\<close>

text \<open>
  An exception is a value: the class and the message that \<open>str(e)\<close> returns. Every class
  below is a subclass of \<open>Exception\<close>. \<open>LibraryError\<close> stands for whatever the embedding
  model, the HTTP client, the MessagePack decoder or the JSON parser raise.
\<close>

datatype error =
    RuntimeError string
  | FileNotFoundError string
  | IndexError string
  | TypeError string
  | LibraryError string

fun error_str :: "error \<Rightarrow> string" where
  "error_str (RuntimeError m) = m"
| "error_str (FileNotFoundError m) = m"
| "error_str (IndexError m) = m"
| "error_str (TypeError m) = m"
| "error_str (LibraryError m) = m"

text \<open>\<open>xs[i]\<close> on a list, for an index that is not negative.\<close>

definition list_index :: "'a list \<Rightarrow> nat \<Rightarrow> error + 'a" where
  "list_index xs i =
     (if i < length xs then Inr (xs ! i) else Inl (IndexError ''list index out of range''))"

section \<open>rag_pipeline.py\<close>

text \<open>What a run does besides returning: the lines it prints and the prompts it hands to
  the generator, in order.\<close>

datatype event = Printed string | Generated string

definition build_context :: "string list \<Rightarrow> string" where
  "build_context chunks = str_strip (str_join ''\<newline>\<newline>'' chunks)"

definition build_prompt :: "string \<Rightarrow> string \<Rightarrow> string" where
  "build_prompt context question =
     ''Context:\<newline>'' @ context @ ''\<newline>\<newline>Question:\<newline>'' @ question @ ''\<newline>\<newline>Answer:''"

text \<open>Lines 28 to 30 of \<open>placeholder_llm\<close>: the context block and the question block.\<close>

definition extract_blocks :: "string \<Rightarrow> error + (string \<times> string)" where
  "extract_blocks prompt =
     (let parts = str_split1 ''\<newline>\<newline>Question:\<newline>'' prompt
      in case list_index parts 0 of
           Inl e \<Rightarrow> Inl e
         | Inr p0 \<Rightarrow>
             (let context_block = str_strip (str_replace1 ''Context:\<newline>'' [] p0)
              in case list_index parts 1 of
                   Inl e \<Rightarrow> Inl e
                 | Inr p1 \<Rightarrow>
                     (let question_block = str_strip (str_replace1 ''\<newline>\<newline>Answer:'' [] p1)
                      in Inr (context_block, question_block))))"

text \<open>Lines 32 to 34: the first sentence.\<close>

definition first_sentence_of :: "string \<Rightarrow> error + string" where
  "first_sentence_of context_block =
     (case list_index (str_split ''. '' context_block) 0 of
        Inl e \<Rightarrow> Inl e
      | Inr p \<Rightarrow>
          (let first_sentence = str_strip p
           in Inr (if \<not> str_endswith first_sentence ''.'' then first_sentence @ ''.''
                   else first_sentence)))"

definition fallback_answer :: string where
  "fallback_answer = ''I could not generate an answer from the given prompt.''"

definition answer_text :: "string \<Rightarrow> string \<Rightarrow> string" where
  "answer_text first_sentence question_block =
     ''Based on the context: '' @ first_sentence @ '' In answer to \"'' @ question_block
       @ ''\": The relevant information is in the context above.''"

definition placeholder_llm :: "string \<Rightarrow> error + string" where
  "placeholder_llm prompt =
     (if str_contains ''Context:\<newline>'' prompt \<and> str_contains ''\<newline>\<newline>Question:\<newline>'' prompt then
        (case extract_blocks prompt of
           Inl e \<Rightarrow> Inl e
         | Inr (context_block, question_block) \<Rightarrow>
             (case first_sentence_of context_block of
                Inl e \<Rightarrow> Inl e
              | Inr first_sentence \<Rightarrow> Inr (answer_text first_sentence question_block)))
      else Inr fallback_answer)"

definition no_context_answer :: string where
  "no_context_answer = ''No relevant context was found for your question.''"

text \<open>Lines 49 to 62 of \<open>run_rag\<close>: what happens to the retrieved chunks.\<close>

definition compose :: "string list \<Rightarrow> string \<Rightarrow> (error + string) \<times> event list" where
  "compose chunks question =
     (if chunks = [] then (Inr no_context_answer, [])
      else (let context = build_context chunks;
                prompt = build_prompt context question
            in (placeholder_llm prompt, [Generated prompt])))"

section \<open>retrieval/search.py\<close>

text \<open>
  What \<open>msgpack.unpackb(..., raw=False)\<close> returns: \<open>None\<close>, a bool, an int, a float (its 64
  bits), a \<open>str\<close>, \<open>bytes\<close>, a list, or a dict. A dict is the list of its items in insertion
  order; its keys are pairwise distinct.
\<close>

datatype msgval =
    MNil
  | MBool bool
  | MInt int
  | MFloat "64 word"
  | MStr string
  | MBin "8 word list"
  | MArr "msgval list"
  | MMap "(msgval \<times> msgval) list"

text \<open>The metadata file after \<open>json.loads\<close>: chunk id to a record of named text fields.\<close>

type_synonym metadata = "string \<rightharpoonup> (string \<rightharpoonup> string)"

record response =
  status_code :: int
  content_type_header :: "string option"
  response_text :: string
  unpackb :: "error + msgval"

text \<open>
  Everything outside the repository that a query touches. \<open>encode\<close> loads the embedding
  model and embeds the query; \<open>post\<close> is the HTTP request to the search endpoint;
  \<open>unpackb\<close> of a response is what decoding its body gives; \<open>metadata_file\<close> is \<open>None\<close> when
  the file does not exist, otherwise what reading and parsing it gives; \<open>py_str\<close> is the
  builtin \<open>str()\<close> on decoded values that are not themselves a \<open>str\<close>.
\<close>

record env =
  encode :: "string \<Rightarrow> error + 64 word list"
  post :: "64 word list \<Rightarrow> error + response"
  metadata_file :: "(error + metadata) option"
  py_str :: "msgval \<Rightarrow> string"

definition load_metadata :: "env \<Rightarrow> error + metadata" where
  "load_metadata env =
     (case metadata_file env of
        None \<Rightarrow> Inl (FileNotFoundError ''Metadata not found: chunk_metadata.json'')
      | Some r \<Rightarrow> r)"

text \<open>\<open>payload.get(key, default)\<close> on a decoded dict.\<close>

definition dict_get :: "(msgval \<times> msgval) list \<Rightarrow> string \<Rightarrow> msgval \<Rightarrow> msgval" where
  "dict_get d key dflt = (case map_of d (MStr key) of None \<Rightarrow> dflt | Some v \<Rightarrow> v)"

text \<open>Lines 80 to 85: the value bound to \<open>results\<close>.\<close>

definition results_of :: "msgval \<Rightarrow> msgval" where
  "results_of payload =
     (case payload of
        MArr xs \<Rightarrow> MArr xs
      | MMap d \<Rightarrow> dict_get d ''results'' (dict_get d ''dense'' (MArr []))
      | _ \<Rightarrow> MArr [])"

text \<open>\<open>for item in results\<close>: the items that the loop visits. A list gives its elements, a
  \<open>str\<close> its characters, \<open>bytes\<close> its byte values, a dict its keys; anything else is not
  iterable.\<close>

definition iterate :: "msgval \<Rightarrow> error + msgval list" where
  "iterate v =
     (case v of
        MArr xs \<Rightarrow> Inr xs
      | MStr s \<Rightarrow> Inr (map (\<lambda>c. MStr [c]) s)
      | MBin bs \<Rightarrow> Inr (map (\<lambda>b. MInt (uint b)) bs)
      | MMap d \<Rightarrow> Inr (map fst d)
      | _ \<Rightarrow> Inl (TypeError ''object is not iterable''))"

text \<open>The f-string \<open>{chunk_id}\<close>.\<close>

definition format_id :: "env \<Rightarrow> msgval \<Rightarrow> string" where
  "format_id env chunk_id = (case chunk_id of MStr s \<Rightarrow> s | _ \<Rightarrow> py_str env chunk_id)"

definition sentinel :: "env \<Rightarrow> msgval \<Rightarrow> string" where
  "sentinel env chunk_id = ''[No text for id: '' @ format_id env chunk_id @ '']''"

text \<open>Lines 99 to 102. \<open>chunk_id in metadata\<close> hashes the id, which raises for a list or a
  dict; the keys of the metadata are strings, so only a \<open>str\<close> id can be found.\<close>

definition chunk_for :: "env \<Rightarrow> metadata \<Rightarrow> msgval \<Rightarrow> error + string" where
  "chunk_for env metadata chunk_id =
     (case chunk_id of
        MArr _ \<Rightarrow> Inl (TypeError ''unhashable type: list'')
      | MMap _ \<Rightarrow> Inl (TypeError ''unhashable type: dict'')
      | MStr s \<Rightarrow>
          (case metadata s of
             None \<Rightarrow> Inr (sentinel env chunk_id)
           | Some entry \<Rightarrow>
               (case entry ''text'' of
                  None \<Rightarrow> Inr (sentinel env chunk_id)
                | Some t \<Rightarrow> Inr t))
      | _ \<Rightarrow> Inr (sentinel env chunk_id))"

text \<open>\<open>isinstance(item, (list, tuple))\<close>: the decoder returns a list for every array.\<close>

definition isinstance_list :: "msgval \<Rightarrow> bool" where
  "isinstance_list v = (case v of MArr _ \<Rightarrow> True | _ \<Rightarrow> False)"

definition elements :: "msgval \<Rightarrow> msgval list" where
  "elements v = (case v of MArr xs \<Rightarrow> xs | _ \<Rightarrow> [])"

text \<open>Line 94: the guard that sends the loop to the next item.\<close>

definition skipped :: "msgval \<Rightarrow> bool" where
  "skipped item = (\<not> isinstance_list item \<or> length (elements item) = 0)"

text \<open>Lines 92 to 104: the loop over the items, \<open>chunks\<close> being the list built so far.\<close>

fun map_results :: "env \<Rightarrow> metadata \<Rightarrow> msgval list \<Rightarrow> string list \<Rightarrow> error + string list" where
  "map_results env metadata [] chunks = Inr chunks"
| "map_results env metadata (item # rest) chunks =
     (if skipped item then map_results env metadata rest chunks
      else (case list_index (elements item) 1 of
              Inl e \<Rightarrow> Inl e
            | Inr chunk_id \<Rightarrow>
                (case chunk_for env metadata chunk_id of
                   Inl e \<Rightarrow> Inl e
                 | Inr t \<Rightarrow> map_results env metadata rest (chunks @ [t]))))"

definition retrieve_chunks :: "env \<Rightarrow> string \<Rightarrow> (error + string list) \<times> event list" where
  "retrieve_chunks env query =
     (case encode env query of
        Inl e \<Rightarrow> (Inl e, [])
      | Inr query_vector \<Rightarrow>
          (case post env query_vector of
             Inl e \<Rightarrow> (Inl e, [])
           | Inr response \<Rightarrow>
               (if status_code response \<noteq> 200 then
                  (Inl (RuntimeError (''Search failed: '' @ response_text response)), [])
                else
                  (let content_type =
                         (case content_type_header response of None \<Rightarrow> [] | Some v \<Rightarrow> v)
                   in if \<not> str_contains ''application/msgpack'' content_type then
                        (Inr [],
                         [Printed ''DEBUG: Non-msgpack response from Endee'',
                          Printed (take 300 (response_text response))])
                      else
                        (case unpackb response of
                           Inl e \<Rightarrow> (Inl e, [])
                         | Inr payload \<Rightarrow>
                             (let results = results_of payload
                              in case load_metadata env of
                                   Inl e \<Rightarrow> (Inl e, [])
                                 | Inr metadata \<Rightarrow>
                                     (case iterate results of
                                        Inl e \<Rightarrow> (Inl e, [])
                                      | Inr items \<Rightarrow>
                                          (map_results env metadata items [], []))))))))"

section \<open>rag_pipeline.py and app.py: the entry points\<close>

definition run_rag :: "env \<Rightarrow> string \<Rightarrow> (error + string) \<times> event list" where
  "run_rag env question =
     (case retrieve_chunks env question of
        (Inl e, out) \<Rightarrow> (Inl e, out)
      | (Inr chunks, out) \<Rightarrow>
          (case compose chunks question of (r, out') \<Rightarrow> (r, out @ out')))"

text \<open>The JSON object that \<open>ask\<close> returns: \<open>{question, answer}\<close> or \<open>{error, note}\<close>.\<close>

datatype body =
    Answered string string
  | Failed string string

definition error_note :: string where
  "error_note = ''Error occurred inside RAG pipeline (retrieval / Endee search).''"

text \<open>\<open>ask\<close>: \<open>try\<close> around \<open>run_rag\<close>, \<open>except Exception\<close> turning the exception into a
  body. The result is \<open>Inl\<close> when an exception leaves \<open>ask\<close>.\<close>

definition ask :: "env \<Rightarrow> string \<Rightarrow> (error + body) \<times> event list" where
  "ask env question =
     (case run_rag env question of
        (Inr answer, out) \<Rightarrow> (Inr (Answered question answer), out)
      | (Inl e, out) \<Rightarrow> (Inr (Failed (error_str e) error_note), out))"

section \<open>ingestion/ingest.py\<close>

text \<open>The characters of the lookbehind \<open>(?<=[.!?])\<close>.\<close>

definition is_sentence_end :: "char \<Rightarrow> bool" where
  "is_sentence_end c = (c = CHR ''.'' \<or> c = CHR ''!'' \<or> c = CHR ''?'')"

text \<open>
  \<open>sentence_end.split(text)\<close> for the pattern \<open>(?<=[.!?])\s+\<close>, scanning from the left
  with \<open>piece\<close> the characters read since the last separator. A separator starts at a
  whitespace character that follows \<open>.\<close>, \<open>!\<close> or \<open>?\<close> and takes the whole run of whitespace.
  The piece is empty only at the start of the text and right after a separator, where the
  character before is absent or whitespace, so the lookbehind fails there.
\<close>

function sentence_end_split :: "string \<Rightarrow> string \<Rightarrow> string list" where
  "sentence_end_split piece [] = [piece]"
| "sentence_end_split piece (c # cs) =
     (if py_isspace c \<and> piece \<noteq> [] \<and> is_sentence_end (last piece)
      then piece # sentence_end_split [] (dropWhile py_isspace cs)
      else sentence_end_split (piece @ [c]) cs)"
  by pat_completeness auto
termination
  by (relation "measure (\<lambda>(piece, s). length s)")
     (auto simp: length_dropWhile_le less_Suc_eq_le)

text \<open>Line 46: the sentences.\<close>

definition sentences_of :: "string \<Rightarrow> string list" where
  "sentences_of text = map str_strip (filter (\<lambda>s. str_strip s \<noteq> []) (sentence_end_split [] text))"

text \<open>Lines 48 to 56: the loop, \<open>sentences[i : i + 3]\<close> being \<open>take 3 (drop i sentences)\<close>.\<close>

function chunk_loop :: "string list \<Rightarrow> nat \<Rightarrow> string list \<Rightarrow> string list" where
  "chunk_loop sentences i chunks =
     (if i < length sentences
      then chunk_loop sentences (i + 3) (chunks @ [str_join '' '' (take 3 (drop i sentences))])
      else chunks)"
  by pat_completeness auto
termination
  by (relation "measure (\<lambda>(sentences, i, chunks). length sentences - i)") auto

declare chunk_loop.simps [simp del]

definition split_into_chunks :: "string \<Rightarrow> string list" where
  "split_into_chunks text = chunk_loop (sentences_of text) 0 []"

text \<open>\<open>str(n)\<close> for an int that is not negative: its decimal digits.\<close>

definition digit_char :: "nat \<Rightarrow> char" where
  "digit_char d = char_of (48 + d)"

fun str_nat :: "nat \<Rightarrow> string" where
  "str_nat n = (if n < 10 then [digit_char n] else str_nat (n div 10) @ [digit_char (n mod 10)])"

declare str_nat.simps [simp del]

text \<open>\<open>str(i)\<close> for any int.\<close>

definition str_int :: "int \<Rightarrow> string" where
  "str_int i = (if i < 0 then ''-'' @ str_nat (nat (- i)) else str_nat (nat i))"

text \<open>One element of the insert payload: \<open>{"id": ..., "vector": ...}\<close>.\<close>

record vector_entry =
  entry_id :: string
  entry_vector :: "64 word list"

text \<open>Lines 83 to 91 of \<open>main\<close>: the loop over \<open>enumerate(zip(chunks, embeddings))\<close>, with
  \<open>i\<close> the next index and \<open>vectors\<close>, \<open>metadata\<close> what has been built so far.\<close>

fun build_payload ::
  "nat \<Rightarrow> (string \<times> 64 word list) list \<Rightarrow> vector_entry list \<Rightarrow> metadata
     \<Rightarrow> vector_entry list \<times> metadata" where
  "build_payload i [] vectors metadata = (vectors, metadata)"
| "build_payload i ((chunk, emb) # rest) vectors metadata =
     (let chunk_id = ''chunk_'' @ str_nat i
      in build_payload (Suc i) rest
           (vectors @ [\<lparr>entry_id = chunk_id, entry_vector = emb\<rparr>])
           (metadata(chunk_id \<mapsto> [''text'' \<mapsto> chunk])))"

text \<open>
  What an ingestion run touches: the sample document (\<open>None\<close> when the file is missing),
  the two paths as they print, the embedding of the chunks, the exception that writing the
  metadata file raises if any, and the HTTP request that inserts the vectors.
\<close>

record ingest_env =
  sample_docs :: "string option"
  sample_docs_path :: string
  metadata_path :: string
  encode_chunks :: "string list \<Rightarrow> error + 64 word list list"
  write_error :: "error option"
  insert_vectors :: "vector_entry list \<Rightarrow> error + response"

text \<open>What a run does: a printed line, the metadata written to the file, the vectors
  posted to the index.\<close>

datatype ingest_event =
    Said string
  | MetadataWritten metadata
  | VectorsPosted "vector_entry list"

definition ingest_main :: "ingest_env \<Rightarrow> (error + unit) \<times> ingest_event list" where
  "ingest_main env =
     (case sample_docs env of
        None \<Rightarrow> (Inr (), [Said (''Missing file: '' @ sample_docs_path env)])
      | Some raw \<Rightarrow>
          (let text = str_strip raw
           in if text = [] then (Inr (), [Said ''sample_docs.txt is empty''])
              else
                (let chunks = split_into_chunks text;
                     out1 = [Said (''Split into '' @ str_nat (length chunks) @ '' chunk(s).''),
                             Said (''Loading model '' @ [CHR 0x27] @ ''all-MiniLM-L6-v2''
                                     @ [CHR 0x27] @ ''...'')]
                 in case encode_chunks env chunks of
                      Inl e \<Rightarrow> (Inl e, out1)
                    | Inr embeddings \<Rightarrow>
                        (case build_payload 0 (zip chunks embeddings) [] Map.empty of
                           (vectors, metadata) \<Rightarrow>
                             (case write_error env of
                                Some e \<Rightarrow> (Inl e, out1)
                              | None \<Rightarrow>
                                  (let out2 = out1 @
                                         [MetadataWritten metadata,
                                          Said (''Saved chunk metadata to '' @ metadata_path env),
                                          Said (''Sending '' @ str_nat (length vectors)
                                                  @ '' vectors to Endee (JSON)...''),
                                          VectorsPosted vectors]
                                   in case insert_vectors env vectors of
                                        Inl e \<Rightarrow> (Inl e, out2)
                                      | Inr response \<Rightarrow>
                                          (if status_code response = 200 then
                                             (Inr (), out2 @
                                                [Said (''Success: Inserted ''
                                                   @ str_nat (length vectors)
                                                   @ '' vectors into '' @ [CHR 0x27] @ ''rag_index''
                                                   @ [CHR 0x27] @ ''.'')])
                                           else
                                             (Inr (), out2 @
                                                [Said (''Insert failed (''
                                                   @ str_int (status_code response) @ ''): ''
                                                   @ response_text response)]))))))))"

section \<open>Definitions used to state the properties\<close>

text \<open>An in-memory stand-in for the outside world: the embedding succeeds, the search
  endpoint answers \<open>r\<close>, and the metadata file is \<open>m\<close>.\<close>

definition fixture_env :: "response \<Rightarrow> (error + metadata) option \<Rightarrow> env" where
  "fixture_env r m =
     \<lparr>encode = (\<lambda>q. Inr []), post = (\<lambda>v. Inr r), metadata_file = m,
      py_str = (\<lambda>v. ''<value>'')\<rparr>"

text \<open>The declared content type, as line 70 reads it.\<close>

definition declared_content_type :: "response \<Rightarrow> string" where
  "declared_content_type r = (case content_type_header r of None \<Rightarrow> [] | Some v \<Rightarrow> v)"

text \<open>\<open>hash(v)\<close> succeeds.\<close>

definition hashable :: "msgval \<Rightarrow> bool" where
  "hashable v = (case v of MArr _ \<Rightarrow> False | MMap _ \<Rightarrow> False | _ \<Rightarrow> True)"

text \<open>A hit as the data model has it: a sequence whose second element is the chunk id.\<close>

definition well_formed_hit :: "msgval \<Rightarrow> bool" where
  "well_formed_hit item =
     (case item of MArr xs \<Rightarrow> 2 \<le> length xs \<and> hashable (xs ! 1) | _ \<Rightarrow> False)"

text \<open>The output entry that the specification gives for a hit: the text of the metadata
  when the id has one, the sentinel otherwise.\<close>

definition spec_entry :: "env \<Rightarrow> metadata \<Rightarrow> msgval \<Rightarrow> string" where
  "spec_entry env metadata item =
     (case item of
        MArr xs \<Rightarrow>
          (case xs ! 1 of
             MStr s \<Rightarrow>
               (case metadata s of
                  None \<Rightarrow> ''[No text for id: '' @ s @ '']''
                | Some entry \<Rightarrow>
                    (case entry ''text'' of
                       None \<Rightarrow> ''[No text for id: '' @ s @ '']''
                     | Some t \<Rightarrow> t))
           | v \<Rightarrow> ''[No text for id: '' @ py_str env v @ '']'')
      | _ \<Rightarrow> [])"

text \<open>An ingestion run on the document \<open>doc\<close>, where the embedding returns \<open>embeddings\<close> and
  the index answers \<open>r\<close>.\<close>

definition fixture_ingest_env :: "string \<Rightarrow> 64 word list list \<Rightarrow> response \<Rightarrow> ingest_env" where
  "fixture_ingest_env doc embeddings r =
     \<lparr>sample_docs = Some doc, sample_docs_path = ''data/sample_docs.txt'',
      metadata_path = ''data/chunk_metadata.json'',
      encode_chunks = (\<lambda>chunks. Inr embeddings), write_error = None,
      insert_vectors = (\<lambda>vectors. Inr r)\<rparr>"



text \<open>The text of \<open>s\<close> up to the first \<open>sep\<close>, or to the end of \<open>s\<close> when there is none.\<close>

definition up_to_first :: "string \<Rightarrow> string \<Rightarrow> string" where
  "up_to_first sep s = (case split_once sep s of None \<Rightarrow> s | Some (b, a) \<Rightarrow> b)"

text \<open>The first sentence as the specification words it, whitespace trimmed: the text up to
  the first \<open>. \<close> or to the end, with a period appended if absent.\<close>

definition spec_first_sentence :: "string \<Rightarrow> string" where
  "spec_first_sentence context =
     (let t = str_strip (up_to_first ''. '' context)
      in if str_endswith t ''.'' then t else t @ ''.'')"

text \<open>The document of the end-to-end scenario.\<close>

definition paris_chunk :: string where
  "paris_chunk = ''Paris is the capital of France. It is known for the Eiffel Tower.''"

section \<open>The generator on a malformed prompt\<close>

lemma list_index_split1_0 [simp]:
  "list_index (str_split1 sep s) 0 = Inr (case split_once sep s of None \<Rightarrow> s | Some (b, a) \<Rightarrow> b)"
  by (simp add: list_index_def str_split1_def split: option.splits)

lemma list_index_split1_1 [simp]:
  "list_index (str_split1 sep s) 1 =
     (case split_once sep s of
        None \<Rightarrow> Inl (IndexError ''list index out of range'')
      | Some (b, a) \<Rightarrow> Inr a)"
  by (simp add: list_index_def str_split1_def split: option.splits)

lemma str_split_nonempty: "str_split sep s \<noteq> []"
  by (subst str_split.simps) (simp split: option.splits)

lemma list_index_split_0:
  "list_index (str_split sep s) 0 =
     Inr (if sep = [] then s else (case split_once sep s of None \<Rightarrow> s | Some (b, a) \<Rightarrow> b))"
  by (subst str_split.simps) (simp add: list_index_def split: option.splits)

text \<open>
  C5. For every prompt in which the markers \<open>Context:\n\<close> and \<open>\n\nQuestion:\n\<close> are not
  both present, the generator returns the fixed fallback string; it raises nothing.
\<close>

theorem placeholder_llm_fallback:
  assumes "\<not> (str_contains ''Context:\<newline>'' prompt \<and> str_contains ''\<newline>\<newline>Question:\<newline>'' prompt)"
  shows "placeholder_llm prompt = Inr ''I could not generate an answer from the given prompt.''"
  using assms by (auto simp: placeholder_llm_def fallback_answer_def)

theorem placeholder_llm_fallback_witness:
  "\<not> (str_contains ''Context:\<newline>'' ''Context:\<newline>no marker for the question''
       \<and> str_contains ''\<newline>\<newline>Question:\<newline>'' ''Context:\<newline>no marker for the question'')
   \<and> placeholder_llm ''Context:\<newline>no marker for the question''
       = Inr ''I could not generate an answer from the given prompt.''"
proof -
  have h: "\<not> (str_contains ''Context:\<newline>'' ''Context:\<newline>no marker for the question''
       \<and> str_contains ''\<newline>\<newline>Question:\<newline>'' ''Context:\<newline>no marker for the question'')"
    by (simp add: str_contains_def)
  show ?thesis using h placeholder_llm_fallback [OF h] by simp
qed

section \<open>Retrieval: one entry per hit\<close>

lemma chunk_for_hashable:
  "hashable v \<Longrightarrow> chunk_for env md v = Inr (spec_entry env md (MArr (x # v # ys)))"
  by (cases v)
     (auto simp: hashable_def chunk_for_def spec_entry_def sentinel_def format_id_def
           split: option.splits)

lemma well_formed_hit_shape:
  assumes "well_formed_hit item"
  obtains x v ys where "item = MArr (x # v # ys)" and "hashable v"
proof (cases item)
  case (MArr xs)
  with assms have len: "2 \<le> length xs" and h: "hashable (xs ! 1)"
    by (simp_all add: well_formed_hit_def)
  from len obtain x v ys where "xs = x # v # ys"
    by (cases xs; simp) (rename_tac a as, case_tac as; simp)
  with h MArr that show ?thesis by simp
qed (use assms in \<open>simp_all add: well_formed_hit_def\<close>)

lemma map_results_acc:
  assumes "\<forall>item \<in> set results. \<not> skipped item \<longrightarrow> well_formed_hit item"
  shows "map_results env md results chunks
           = Inr (chunks @ map (spec_entry env md) (filter (\<lambda>item. \<not> skipped item) results))"
  using assms
proof (induction results arbitrary: chunks)
  case Nil
  then show ?case by simp
next
  case (Cons item rest)
  show ?case
  proof (cases "skipped item")
    case True
    with Cons show ?thesis by simp
  next
    case False
    with Cons.prems have "well_formed_hit item" by simp
    then obtain x v ys where item: "item = MArr (x # v # ys)" and h: "hashable v"
      by (rule well_formed_hit_shape)
    have "map_results env md (item # rest) chunks
            = map_results env md rest (chunks @ [spec_entry env md item])"
      using False chunk_for_hashable [OF h, of env md x ys]
      by (simp add: item list_index_def elements_def)
    with Cons False show ?thesis by simp
  qed
qed

text \<open>
  C1, as the code has it. When the search answers 200 with a MessagePack body that decodes
  to a list, and no item that passes the guard of line 94 is shorter than two elements or
  carries a list or a dict as its id, \<open>retrieve_chunks\<close> returns one entry for each item
  that passes the guard, in rank order: the text of the metadata when the id has one, the
  sentinel \<open>[No text for id: <id>]\<close> otherwise. Items that are not lists, and empty lists,
  give no entry: the length of the result is the number of items that pass the guard.
\<close>

theorem retrieve_chunks_entry_per_hit:
  assumes "encode env query = Inr v"
    and "post env v = Inr r"
    and "status_code r = 200"
    and "str_contains ''application/msgpack'' (declared_content_type r)"
    and "unpackb r = Inr (MArr results)"
    and "metadata_file env = Some (Inr metadata)"
    and "\<forall>item \<in> set results. \<not> skipped item \<longrightarrow> well_formed_hit item"
  shows "retrieve_chunks env query
           = (Inr (map (spec_entry env metadata) (filter (\<lambda>item. \<not> skipped item) results)), [])"
  using assms(1-6) map_results_acc [OF assms(7), of env metadata "[]"]
  by (simp add: retrieve_chunks_def declared_content_type_def results_of_def
        load_metadata_def iterate_def)

theorem retrieve_chunks_entry_per_hit_witness:
  "retrieve_chunks
     (fixture_env
        \<lparr>status_code = 200, content_type_header = Some ''application/msgpack'',
         response_text = [], unpackb = Inr (MArr [MArr [MFloat 0, MStr ''chunk_0''],
                                                  MInt 7,
                                                  MArr [MFloat 0, MStr ''chunk_9'']])\<rparr>
        (Some (Inr [''chunk_0'' \<mapsto> [''text'' \<mapsto> ''A.'']])))
     ''which letter''
   = (Inr [''A.'', ''[No text for id: chunk_9]''], [])"
proof -
  let ?results = "[MArr [MFloat 0, MStr ''chunk_0''], MInt 7, MArr [MFloat 0, MStr ''chunk_9'']]"
  let ?r = "\<lparr>status_code = 200, content_type_header = Some ''application/msgpack'',
         response_text = [], unpackb = Inr (MArr ?results)\<rparr>"
  let ?md = "[''chunk_0'' \<mapsto> [''text'' \<mapsto> ''A.'']]"
  let ?env = "fixture_env ?r (Some (Inr ?md))"
  have h1: "encode ?env ''which letter'' = Inr []" by (simp add: fixture_env_def)
  have h2: "post ?env [] = Inr ?r" by (simp add: fixture_env_def)
  have h3: "status_code ?r = 200" by simp
  have h4: "str_contains ''application/msgpack'' (declared_content_type ?r)"
    by (simp add: str_contains_def declared_content_type_def)
  have h5: "unpackb ?r = Inr (MArr ?results)" by simp
  have h6: "metadata_file ?env = Some (Inr ?md)" by (simp add: fixture_env_def)
  have h7: "\<forall>item \<in> set ?results. \<not> skipped item \<longrightarrow> well_formed_hit item"
    by (simp add: well_formed_hit_def hashable_def skipped_def isinstance_list_def elements_def)
  show ?thesis
    using retrieve_chunks_entry_per_hit [OF h1 h2 h3 h4 h5 h6 h7]
    by (simp add: skipped_def isinstance_list_def elements_def spec_entry_def)
qed

text \<open>
  C1 as stated fails: a decoded list with one hit that is a map gives no entry at all,
  where the claim has one entry, the sentinel for \<open>chunk_0\<close>.
\<close>

theorem retrieve_chunks_entry_per_hit_counterexample:
  "length [MMap [(MStr ''id'', MStr ''chunk_0''), (MStr ''score'', MFloat 0)]] = 1
   \<and> fst (retrieve_chunks
        (fixture_env
           \<lparr>status_code = 200, content_type_header = Some ''application/msgpack'',
            response_text = [],
            unpackb = Inr (MArr [MMap [(MStr ''id'', MStr ''chunk_0''),
                                       (MStr ''score'', MFloat 0)]])\<rparr>
           (Some (Inr Map.empty)))
        ''which letter'')
     = Inr []"
  by (simp add: retrieve_chunks_def fixture_env_def str_contains_def results_of_def
        load_metadata_def iterate_def skipped_def isinstance_list_def)

text \<open>
  C10. An item with exactly one element passes the guard of line 94, and the read of its
  element 1 on line 97 is then out of range: the loop raises IndexError.
\<close>

theorem map_results_index_out_of_range:
  "\<not> skipped (MArr [MFloat 0])
   \<and> map_results env metadata [MArr [MFloat 0]] [] = Inl (IndexError ''list index out of range'')"
  by (simp add: skipped_def isinstance_list_def elements_def list_index_def)

theorem map_results_index_out_of_range_witness:
  "\<not> skipped (MArr [MFloat 0])
   \<and> map_results
        (fixture_env
           \<lparr>status_code = 200, content_type_header = Some ''application/msgpack'',
            response_text = [], unpackb = Inr (MArr [MArr [MFloat 0]])\<rparr>
           (Some (Inr Map.empty)))
        Map.empty [MArr [MFloat 0]] []
     = Inl (IndexError ''list index out of range'')"
  by (rule map_results_index_out_of_range)

section \<open>Retrieval: an unexpected content type\<close>

text \<open>
  C4, as the code has it. When the search answers 200 and the declared content type does
  not contain \<open>application/msgpack\<close>, \<open>retrieve_chunks\<close> returns the empty list and prints
  two diagnostic lines. The body is not decoded: the result is the same whatever decoding
  it would give, an exception included, and whatever the metadata file holds.
\<close>

theorem retrieve_chunks_unexpected_content_type:
  assumes "encode env query = Inr v"
    and "post env v = Inr r"
    and "status_code r = 200"
    and "\<not> str_contains ''application/msgpack'' (declared_content_type r)"
  shows "retrieve_chunks env query
           = (Inr [], [Printed ''DEBUG: Non-msgpack response from Endee'',
                       Printed (take 300 (response_text r))])"
  using assms by (simp add: retrieve_chunks_def declared_content_type_def)

theorem retrieve_chunks_unexpected_content_type_witness:
  "retrieve_chunks
     (fixture_env
        \<lparr>status_code = 200, content_type_header = Some ''text/html'',
         response_text = ''<html>'', unpackb = Inl (LibraryError ''unpack failed'')\<rparr>
        None)
     ''which letter''
   = (Inr [], [Printed ''DEBUG: Non-msgpack response from Endee'', Printed ''<html>''])"
proof -
  let ?r = "\<lparr>status_code = 200, content_type_header = Some ''text/html'',
         response_text = ''<html>'', unpackb = Inl (LibraryError ''unpack failed'')\<rparr>"
  let ?env = "fixture_env ?r None"
  have h1: "encode ?env ''which letter'' = Inr []" by (simp add: fixture_env_def)
  have h2: "post ?env [] = Inr ?r" by (simp add: fixture_env_def)
  have h3: "status_code ?r = 200" by simp
  have h4: "\<not> str_contains ''application/msgpack'' (declared_content_type ?r)"
    by (simp add: str_contains_def declared_content_type_def)
  show ?thesis
    using retrieve_chunks_unexpected_content_type [OF h1 h2 h3 h4] by simp
qed

text \<open>
  C4 as stated fails: a response whose content type is \<open>text/plain\<close> and whose status is
  500 makes \<open>retrieve_chunks\<close> raise RuntimeError on line 67, before the content type is
  read.
\<close>

theorem retrieve_chunks_unexpected_content_type_counterexample:
  "\<not> str_contains ''application/msgpack''
       (declared_content_type
          \<lparr>status_code = 500, content_type_header = Some ''text/plain'',
           response_text = ''Internal Server Error'', unpackb = Inl (LibraryError ''unpack failed'')\<rparr>)
   \<and> retrieve_chunks
        (fixture_env
           \<lparr>status_code = 500, content_type_header = Some ''text/plain'',
            response_text = ''Internal Server Error'', unpackb = Inl (LibraryError ''unpack failed'')\<rparr>
           None)
        ''which letter''
     = (Inl (RuntimeError ''Search failed: Internal Server Error''), [])"
  by (simp add: retrieve_chunks_def fixture_env_def str_contains_def declared_content_type_def)

section \<open>Composition on no chunks\<close>

text \<open>
  C3, as the code has it. For every question, composition on the empty chunk list returns
  the fixed message and hands nothing to the generator, and so does \<open>run_rag\<close> when the
  retrieval returns no chunk. On every chunk list that is not empty the generator is called
  once, with the prompt built from the assembled context, whether that context is empty or
  not.
\<close>

theorem compose_empty_chunks:
  "compose [] question = (Inr ''No relevant context was found for your question.'', [])
   \<and> (retrieve_chunks env question = (Inr [], out) \<longrightarrow>
        run_rag env question = (Inr ''No relevant context was found for your question.'', out))
   \<and> (chunks \<noteq> [] \<longrightarrow>
        snd (compose chunks question)
          = [Generated (build_prompt (build_context chunks) question)])"
  by (simp add: compose_def run_rag_def no_context_answer_def Let_def)

theorem compose_empty_chunks_witness:
  "compose [] ''why'' = (Inr ''No relevant context was found for your question.'', [])
   \<and> run_rag
        (fixture_env
           \<lparr>status_code = 200, content_type_header = Some ''text/html'',
            response_text = [], unpackb = Inl (LibraryError ''unpack failed'')\<rparr>
           None)
        ''why''
      = (Inr ''No relevant context was found for your question.'',
         [Printed ''DEBUG: Non-msgpack response from Endee'', Printed []])
   \<and> snd (compose [''A.''] ''why'') = [Generated ''Context:\<newline>A.\<newline>\<newline>Question:\<newline>why\<newline>\<newline>Answer:'']"
proof -
  let ?env = "fixture_env
           \<lparr>status_code = 200, content_type_header = Some ''text/html'',
            response_text = [], unpackb = Inl (LibraryError ''unpack failed'')\<rparr>
           None"
  let ?out = "[Printed ''DEBUG: Non-msgpack response from Endee'', Printed []]"
  have h1: "retrieve_chunks ?env ''why'' = (Inr [], ?out)"
    by (simp add: retrieve_chunks_def fixture_env_def str_contains_def)
  have h2: "[''A.''] \<noteq> []" by simp
  have h3: "build_prompt (build_context [''A.'']) ''why'' = ''Context:\<newline>A.\<newline>\<newline>Question:\<newline>why\<newline>\<newline>Answer:''"
    by (simp add: build_prompt_def build_context_def str_strip_def py_isspace_def)
  show ?thesis
    using compose_empty_chunks [of "''why''" ?env ?out "[''A.'']"] h1 h2 h3 by simp
qed

text \<open>
  C3 as stated fails: the chunk list that holds one empty chunk assembles to the empty
  context, and the generator is called on it.
\<close>

theorem compose_empty_chunks_counterexample:
  "build_context [''''] = []
   \<and> compose [''''] ''why''
     = (Inr ''Based on the context: . In answer to \"why\": The relevant information is in the context above.'',
        [Generated ''Context:\<newline>\<newline>\<newline>Question:\<newline>why\<newline>\<newline>Answer:''])"
  by code_simp

section \<open>The question-answering entry point\<close>

text \<open>
  C8. For every question and every outcome of the pipeline, \<open>ask\<close> returns a body and
  raises nothing: \<open>{question, answer}\<close> with the answer of \<open>run_rag\<close> when it returns one,
  \<open>{error, note}\<close> with the message of the exception when \<open>run_rag\<close> raises one.
\<close>

theorem ask_never_raises:
  "\<exists>b out. ask env question = (Inr b, out) \<and>
     ((\<exists>a. fst (run_rag env question) = Inr a \<and> b = Answered question a) \<or>
      (\<exists>e. fst (run_rag env question) = Inl e \<and>
           b = Failed (error_str e)
                 ''Error occurred inside RAG pipeline (retrieval / Endee search).''))"
  by (cases "run_rag env question"; cases "fst (run_rag env question)")
     (auto simp: ask_def error_note_def)

section \<open>The chunker\<close>




























section \<open>Ingestion: the chunk ids\<close>

lemma digit_char_inj: "a < 10 \<Longrightarrow> b < 10 \<Longrightarrow> digit_char a = digit_char b \<Longrightarrow> a = b"
proof -
  assume a: "a < 10" and b: "b < 10" and eq: "digit_char a = digit_char b"
  from eq have "(of_char (digit_char a) :: nat) = of_char (digit_char b)" by simp
  with a b show "a = b" by (simp add: digit_char_def)
qed

lemma str_nat_nonempty: "str_nat n \<noteq> []"
  by (subst str_nat.simps) simp

lemma str_nat_last: "last (str_nat n) = digit_char (n mod 10)"
  by (subst str_nat.simps) simp

lemma str_nat_butlast: "butlast (str_nat n) = (if n < 10 then [] else str_nat (n div 10))"
  by (subst str_nat.simps) simp

lemma str_nat_inj: "str_nat n = str_nat m \<Longrightarrow> n = m"
proof (induction n arbitrary: m rule: str_nat.induct)
  case (1 n)
  from "1.prems" have l: "digit_char (n mod 10) = digit_char (m mod 10)"
    using str_nat_last by metis
  then have lm: "n mod 10 = m mod 10" by (rule digit_char_inj [rotated 2]) simp_all
  from "1.prems" have bl: "butlast (str_nat n) = butlast (str_nat m)" by simp
  show ?case
  proof (cases "n < 10")
    case True
    with bl have "m < 10"
      by (auto simp: str_nat_butlast str_nat_nonempty split: if_splits dest: sym)
    with True lm show ?thesis by simp
  next
    case False
    with bl have m: "\<not> m < 10"
      by (auto simp: str_nat_butlast str_nat_nonempty split: if_splits)
    with bl False have "str_nat (n div 10) = str_nat (m div 10)"
      by (simp add: str_nat_butlast)
    with "1.IH" False have "n div 10 = m div 10" by simp
    with lm show ?thesis by (metis div_mult_mod_eq)
  qed
qed

lemma chunk_id_inj: "''chunk_'' @ str_nat n = ''chunk_'' @ str_nat m \<Longrightarrow> n = m"
  using str_nat_inj by simp

lemma build_payload_vectors:
  "fst (build_payload k ps vs md)
     = vs @ map (\<lambda>j. \<lparr>entry_id = ''chunk_'' @ str_nat (k + j), entry_vector = snd (ps ! j)\<rparr>)
              [0..<length ps]"
proof (induction ps arbitrary: k vs md)
  case Nil
  then show ?case by simp
next
  case (Cons p ps)
  obtain chunk emb where p: "p = (chunk, emb)" by (cases p)
  have "[0..<length (p # ps)] = 0 # map Suc [0..<length ps]"
    by (simp add: upt_conv_Cons map_Suc_upt del: upt_Suc)
  then show ?case
    by (simp add: p Cons.IH Let_def comp_def del: upt_Suc)
qed

lemma build_payload_other:
  "\<forall>j < length ps. s \<noteq> ''chunk_'' @ str_nat (k + j)
     \<Longrightarrow> snd (build_payload k ps vs md) s = md s"
proof (induction ps arbitrary: k vs md)
  case Nil
  then show ?case by simp
next
  case (Cons p ps)
  obtain chunk emb where p: "p = (chunk, emb)" by (cases p)
  from Cons.prems have here: "s \<noteq> ''chunk_'' @ str_nat k" by force
  from Cons.prems have "\<forall>j < length ps. s \<noteq> ''chunk_'' @ str_nat (Suc k + j)" by force
  then show ?case
    using here by (simp add: p Cons.IH Let_def)
qed

lemma build_payload_entry:
  "j < length ps
     \<Longrightarrow> snd (build_payload k ps vs md) (''chunk_'' @ str_nat (k + j))
           = Some [''text'' \<mapsto> fst (ps ! j)]"
proof (induction ps arbitrary: k vs md j)
  case Nil
  then show ?case by simp
next
  case (Cons p ps)
  obtain chunk emb where p: "p = (chunk, emb)" by (cases p)
  show ?case
  proof (cases j)
    case 0
    have "\<forall>i < length ps. ''chunk_'' @ str_nat k \<noteq> ''chunk_'' @ str_nat (Suc k + i)"
      using chunk_id_inj by fastforce
    then show ?thesis
      by (simp add: 0 p Let_def build_payload_other fun_upd_def)
  next
    case (Suc j')
    with Cons.prems have "j' < length ps" by simp
    then show ?thesis
      using Cons.IH [of j' "Suc k"] by (simp add: Suc p Let_def)
  qed
qed

lemma image_shift:
  "(\<lambda>j. f (k + j)) ` {0..<Suc n} = insert (f k) ((\<lambda>j. f (Suc k + j)) ` {0..<n})"
proof -
  have "{0..<Suc n} = insert 0 (Suc ` {0..<n})"
    by (simp only: atLeast0_lessThan_Suc_eq_insert_0)
  then show ?thesis
    by (simp only: image_insert image_image) simp
qed

lemma build_payload_dom:
  "dom (snd (build_payload k ps vs md))
     = dom md \<union> (\<lambda>j. ''chunk_'' @ str_nat (k + j)) ` {0..<length ps}"
proof (induction ps arbitrary: k vs md)
  case Nil
  then show ?case by simp
next
  case (Cons p ps)
  obtain chunk emb where p: "p = (chunk, emb)" by (cases p)
  have "dom (snd (build_payload k (p # ps) vs md))
          = insert (''chunk_'' @ str_nat k) (dom md)
            \<union> (\<lambda>j. ''chunk_'' @ str_nat (Suc k + j)) ` {0..<length ps}"
    by (simp only: p build_payload.simps Let_def Cons.IH dom_fun_upd option.distinct if_False)
  also have "\<dots> = dom md \<union> (\<lambda>j. ''chunk_'' @ str_nat (k + j)) ` {0..<Suc (length ps)}"
    by (simp only: image_shift [of "\<lambda>i. ''chunk_'' @ str_nat i"]) blast
  finally show ?case by simp
qed

text \<open>
  C9. In an ingestion run that reaches the insert, with one embedding for each chunk: the
  ids of the vectors posted to the index are \<open>chunk_0\<close>, \<open>chunk_1\<close>, ... in order, one for
  each chunk; they are pairwise distinct; they are exactly the keys of the metadata written
  to the file; and under the id of the i-th vector the metadata holds the text of the i-th
  chunk, whose embedding is the vector posted under that id.
\<close>

theorem ingest_ids_agree:
  assumes "sample_docs env = Some raw"
    and "str_strip raw \<noteq> []"
    and "chunks = split_into_chunks (str_strip raw)"
    and "encode_chunks env chunks = Inr embeddings"
    and "length embeddings = length chunks"
    and "write_error env = None"
  shows "\<exists>vectors metadata.
           MetadataWritten metadata \<in> set (snd (ingest_main env))
         \<and> VectorsPosted vectors \<in> set (snd (ingest_main env))
         \<and> map entry_id vectors = map (\<lambda>i. ''chunk_'' @ str_nat i) [0..<length chunks]
         \<and> distinct (map entry_id vectors)
         \<and> set (map entry_id vectors) = dom metadata
         \<and> (\<forall>i < length chunks.
               entry_vector (vectors ! i) = embeddings ! i
             \<and> metadata (entry_id (vectors ! i)) = Some [''text'' \<mapsto> chunks ! i])"
proof -
  let ?ps = "zip chunks embeddings"
  let ?vs = "fst (build_payload 0 ?ps [] Map.empty)"
  let ?md = "snd (build_payload 0 ?ps [] Map.empty)"
  have len: "length ?ps = length chunks" using assms(5) by simp
  have vs: "?vs = map (\<lambda>j. \<lparr>entry_id = ''chunk_'' @ str_nat j, entry_vector = snd (?ps ! j)\<rparr>)
                    [0..<length chunks]"
    using build_payload_vectors [of 0 ?ps "[]" Map.empty] len by simp
  have ids: "map entry_id ?vs = map (\<lambda>i. ''chunk_'' @ str_nat i) [0..<length chunks]"
    by (simp add: vs comp_def)
  have "inj_on (\<lambda>i. ''chunk_'' @ str_nat i) (set [0..<length chunks])"
    by (rule inj_onI) (rule chunk_id_inj)
  then have dist: "distinct (map entry_id ?vs)"
    unfolding ids by (simp add: distinct_map)
  have dom: "set (map entry_id ?vs) = dom ?md"
    unfolding ids using build_payload_dom [of 0 ?ps "[]" Map.empty] len by simp
  have each: "entry_vector (?vs ! i) = embeddings ! i
              \<and> ?md (entry_id (?vs ! i)) = Some [''text'' \<mapsto> chunks ! i]"
    if "i < length chunks" for i
    using that build_payload_entry [of i ?ps 0 "[]" Map.empty] len assms(5)
    by (simp add: vs)
  have "MetadataWritten ?md \<in> set (snd (ingest_main env))
        \<and> VectorsPosted ?vs \<in> set (snd (ingest_main env))"
    using assms(1,2,4,6)
    by (auto simp: ingest_main_def assms(3) Let_def split: sum.splits prod.splits)
  with ids dist dom each show ?thesis by blast
qed

theorem ingest_ids_agree_witness:
  "\<exists>vectors metadata.
       MetadataWritten metadata
         \<in> set (snd (ingest_main (fixture_ingest_env ''A. B. C. D.'' [[1], [2]]
                  \<lparr>status_code = 200, content_type_header = None, response_text = [],
                   unpackb = Inl (LibraryError ''unpack failed'')\<rparr>)))
     \<and> VectorsPosted vectors
         \<in> set (snd (ingest_main (fixture_ingest_env ''A. B. C. D.'' [[1], [2]]
                  \<lparr>status_code = 200, content_type_header = None, response_text = [],
                   unpackb = Inl (LibraryError ''unpack failed'')\<rparr>)))
     \<and> map entry_id vectors = [''chunk_0'', ''chunk_1'']
     \<and> distinct (map entry_id vectors)
     \<and> set (map entry_id vectors) = dom metadata
     \<and> entry_vector (vectors ! 0) = [1] \<and> entry_vector (vectors ! 1) = [2]
     \<and> metadata ''chunk_0'' = Some [''text'' \<mapsto> ''A. B. C.'']
     \<and> metadata ''chunk_1'' = Some [''text'' \<mapsto> ''D.'']"
proof -
  let ?env = "fixture_ingest_env ''A. B. C. D.'' [[1], [2]]
                  \<lparr>status_code = 200, content_type_header = None, response_text = [],
                   unpackb = Inl (LibraryError ''unpack failed'')\<rparr>"
  have h1: "sample_docs ?env = Some ''A. B. C. D.''" by (simp add: fixture_ingest_env_def)
  have h2: "str_strip ''A. B. C. D.'' \<noteq> []" by code_simp
  have h3: "[''A. B. C.'', ''D.''] = split_into_chunks (str_strip ''A. B. C. D.'')" by code_simp
  have h4: "encode_chunks ?env [''A. B. C.'', ''D.''] = Inr [[1], [2]]"
    by (simp add: fixture_ingest_env_def)
  have h5: "length [[1], [2 :: 64 word]] = length [''A. B. C.'', ''D.'']" by simp
  have h6: "write_error ?env = None" by (simp add: fixture_ingest_env_def)
  have n0: "str_nat 0 = ''0''" and n1: "str_nat (Suc 0) = ''1''" by code_simp+
  from ingest_ids_agree [OF h1 h2 h3 h4 h5 h6]
  obtain vectors metadata where
        w: "MetadataWritten metadata \<in> set (snd (ingest_main ?env))"
    and p: "VectorsPosted vectors \<in> set (snd (ingest_main ?env))"
    and ids: "map entry_id vectors
                = map (\<lambda>i. ''chunk_'' @ str_nat i) [0..<length [''A. B. C.'', ''D.'']]"
    and dist: "distinct (map entry_id vectors)"
    and dom: "set (map entry_id vectors) = dom metadata"
    and each: "\<forall>i < length [''A. B. C.'', ''D.''].
                 entry_vector (vectors ! i) = [[1], [2]] ! i
               \<and> metadata (entry_id (vectors ! i)) = Some [''text'' \<mapsto> [''A. B. C.'', ''D.''] ! i]"
    by blast
  have upt: "[0..<length [''A. B. C.'', ''D.'']] = [0, Suc 0]" by (simp add: upt_rec)
  have ids': "map entry_id vectors = [''chunk_0'', ''chunk_1'']"
    using ids unfolding upt by (simp add: n0 n1)
  have "length (map entry_id vectors) = 2" unfolding ids' by simp
  then have lv: "length vectors = 2" by simp
  have "map entry_id vectors ! 0 = ''chunk_0''" unfolding ids' by simp
  then have i0: "entry_id (vectors ! 0) = ''chunk_0''" using lv by simp
  have "map entry_id vectors ! 1 = ''chunk_1''" unfolding ids' by simp
  then have i1: "entry_id (vectors ! 1) = ''chunk_1''" using lv by simp
  have "(0::nat) < length [''A. B. C.'', ''D.'']" by simp
  with each have e0: "entry_vector (vectors ! 0) = [[1], [2]] ! 0
                      \<and> metadata (entry_id (vectors ! 0)) = Some [''text'' \<mapsto> [''A. B. C.'', ''D.''] ! 0]"
    by blast
  have "(1::nat) < length [''A. B. C.'', ''D.'']" by simp
  with each have e1: "entry_vector (vectors ! 1) = [[1], [2]] ! 1
                      \<and> metadata (entry_id (vectors ! 1)) = Some [''text'' \<mapsto> [''A. B. C.'', ''D.''] ! 1]"
    by blast
  have v0: "entry_vector (vectors ! 0) = [1]" using e0 by simp
  have v1: "entry_vector (vectors ! 1) = [2]" using e1 by simp
  have m0: "metadata ''chunk_0'' = Some [''text'' \<mapsto> ''A. B. C.'']"
    using e0 unfolding i0 by simp
  have m1: "metadata ''chunk_1'' = Some [''text'' \<mapsto> ''D.'']"
    using e1 unfolding i1 by simp
  show ?thesis
    apply (rule exI [of _ vectors])
    apply (rule exI [of _ metadata])
    apply (intro conjI)
            apply (rule w)
           apply (rule p)
          apply (rule ids')
         apply (rule dist)
        apply (rule dom)
       apply (rule v0)
      apply (rule v1)
     apply (rule m0)
    apply (rule m1)
    done
qed

section \<open>The prompt template read back\<close>

lemma split_once_at_start: "split_once sep (sep @ b) = Some ([], b)"
proof (cases "sep @ b")
  case Nil
  then show ?thesis by simp
next
  case (Cons c cs)
  have "prefix sep (sep @ b)" and "drop (length sep) (sep @ b) = b" by simp_all
  then show ?thesis unfolding Cons by simp
qed

lemma split_once_sound: "split_once sep s = Some (b, a) \<Longrightarrow> s = b @ sep @ a"
proof (induction s arbitrary: b)
  case Nil
  then show ?case by (simp split: if_splits)
next
  case (Cons c cs)
  show ?case
  proof (cases "prefix sep (c # cs)")
    case True
    with Cons.prems have "b = []" and "a = drop (length sep) (c # cs)" by simp_all
    with True show ?thesis by (auto simp: prefix_def)
  next
    case False
    with Cons.prems obtain b' where "split_once sep cs = Some (b', a)" and "b = c # b'"
      by (auto split: option.splits)
    with Cons.IH show ?thesis by simp
  qed
qed

lemma str_contains_append: "str_contains sep (u @ sep @ v)"
proof (induction u)
  case Nil
  then show ?case by (simp add: str_contains_def split_once_at_start)
next
  case (Cons c u)
  then show ?case by (auto simp: str_contains_def split: option.splits)
qed

lemma str_contains_iff: "str_contains sep s \<longleftrightarrow> (\<exists>u v. s = u @ sep @ v)"
proof
  assume "str_contains sep s"
  then obtain b a where "split_once sep s = Some (b, a)"
    by (auto simp: str_contains_def)
  then show "\<exists>u v. s = u @ sep @ v" using split_once_sound by blast
next
  assume "\<exists>u v. s = u @ sep @ v"
  then show "str_contains sep s" using str_contains_append by blast
qed

text \<open>The leftmost occurrence is the one after \<open>a\<close> when none starts inside \<open>a\<close>.\<close>

lemma split_once_first:
  assumes "\<not> str_contains sep (a @ butlast sep)"
  shows "split_once sep (a @ sep @ b) = Some (a, b)"
  using assms
proof (induction a)
  case Nil
  then show ?case by (simp add: split_once_at_start)
next
  case (Cons x a)
  have sep: "sep \<noteq> []"
  proof
    assume "sep = []"
    then have "str_contains sep ((x # a) @ butlast sep)"
      by (simp add: str_contains_def)
    with Cons.prems show False by simp
  qed
  have np: "\<not> prefix sep (x # a @ sep @ b)"
  proof
    assume "prefix sep (x # a @ sep @ b)"
    then obtain w where w: "x # a @ sep @ b = sep @ w" by (auto simp: prefix_def)
    have "length sep \<le> length ((x # a) @ butlast sep)" using sep by simp
    moreover have "(x # a) @ sep @ b = ((x # a) @ butlast sep) @ ([last sep] @ b)"
      using sep by simp
    ultimately have "take (length sep) ((x # a) @ sep @ b)
                       = take (length sep) ((x # a) @ butlast sep)"
      by (simp only: take_append) simp
    moreover have "take (length sep) ((x # a) @ sep @ b) = sep" using w by simp
    ultimately have "sep = take (length sep) ((x # a) @ butlast sep)" by simp
    then have "(x # a) @ butlast sep
                 = [] @ sep @ drop (length sep) ((x # a) @ butlast sep)"
      by (metis append_Nil append_take_drop_id)
    then have "str_contains sep ((x # a) @ butlast sep)"
      using str_contains_append by metis
    with Cons.prems show False by simp
  qed
  have "\<not> str_contains sep (a @ butlast sep)"
  proof
    assume "str_contains sep (a @ butlast sep)"
    then obtain u v where "a @ butlast sep = u @ sep @ v"
      using str_contains_iff by blast
    then have "(x # a) @ butlast sep = (x # u) @ sep @ v" by simp
    then have "str_contains sep ((x # a) @ butlast sep)"
      using str_contains_append by metis
    with Cons.prems show False by simp
  qed
  then have "split_once sep (a @ sep @ b) = Some (a, b)" by (rule Cons.IH)
  with np show ?case by simp
qed

text \<open>An occurrence cannot end inside a tail that lacks the last character of \<open>sep\<close>.\<close>

lemma str_contains_drop_tail:
  assumes "str_contains sep (a @ t)" and "sep \<noteq> []" and "last sep \<notin> set t"
  shows "str_contains sep a"
proof -
  from assms(1) obtain u v where eq: "a @ t = (u @ sep) @ v"
    using str_contains_iff by auto
  from append_eq_append_conv2 [THEN iffD1, OF eq]
  obtain us where us: "a = (u @ sep) @ us \<and> us @ t = v \<or> a @ us = u @ sep \<and> t = us @ v"
    by blast
  then consider w where "a = (u @ sep) @ w"
    | w where "a @ w = u @ sep" and "w @ v = t" and "w \<noteq> []"
  proof (cases "us = []")
    case True
    with us have "a = (u @ sep) @ []" by auto
    then show ?thesis by (rule that(1))
  next
    case False
    with us that show ?thesis by auto
  qed
  then show ?thesis
  proof cases
    case 1
    then show ?thesis using str_contains_append [of sep u w] by simp
  next
    case 2
    then have "last w = last sep" using assms(2) by (metis last_appendR)
    moreover have "last w \<in> set t" using 2 by (metis last_in_set set_append UnI1)
    ultimately show ?thesis using assms(3) by simp
  qed
qed

lemma question_marker_tail:
  assumes "str_contains ''\<newline>\<newline>Question:\<newline>'' (a @ ''\<newline>\<newline>Question:'')"
  shows "str_contains ''\<newline>\<newline>Question:\<newline>'' (a @ ''\<newline>'')"
proof -
  have "str_contains ''\<newline>\<newline>Question:\<newline>'' ((a @ ''\<newline>\<newline>'') @ ''Question:'')"
    using assms by simp
  then have "str_contains ''\<newline>\<newline>Question:\<newline>'' (a @ ''\<newline>\<newline>'')"
    by (rule str_contains_drop_tail) simp_all
  then obtain u v where uv: "(a @ ''\<newline>'') @ ''\<newline>'' = (u @ ''\<newline>\<newline>Question:\<newline>'') @ v"
    using str_contains_iff by auto
  then consider w where "a @ ''\<newline>'' = (u @ ''\<newline>\<newline>Question:\<newline>'') @ w"
    | "a @ ''\<newline>\<newline>'' = u @ ''\<newline>\<newline>Question:\<newline>''"
    by (auto simp: append_eq_append_conv2 append_eq_Cons_conv Cons_eq_append_conv)
  then show ?thesis
  proof cases
    case 1
    then show ?thesis
      using str_contains_append [of "''\<newline>\<newline>Question:\<newline>''" u w] by simp
  next
    case 2
    then have "rev (a @ ''\<newline>\<newline>'') = rev (u @ ''\<newline>\<newline>Question:\<newline>'')" by simp
    then show ?thesis by simp
  qed
qed

lemma extract_blocks_build_prompt:
  assumes "\<not> str_contains ''\<newline>\<newline>Question:\<newline>'' (''\<newline>'' @ context @ ''\<newline>'')"
    and "\<not> str_contains ''\<newline>\<newline>Answer:'' question"
  shows "extract_blocks (build_prompt context question)
           = Inr (str_strip context, str_strip question)"
proof -
  let ?Q = "''\<newline>\<newline>Question:\<newline>''" and ?A = "''\<newline>\<newline>Answer:''"
  have "\<not> str_contains ?Q ((''\<newline>'' @ context) @ ''\<newline>\<newline>Question:'')"
    using assms(1) question_marker_tail [of "''\<newline>'' @ context"] by auto
  then have "split_once ?Q ((''\<newline>'' @ context) @ ?Q @ question @ ?A)
               = Some (''\<newline>'' @ context, question @ ?A)"
    using split_once_first [of ?Q "''\<newline>'' @ context" "question @ ?A"] by simp
  then have parts: "split_once ?Q (build_prompt context question)
               = Some (''Context:\<newline>'' @ context, question @ ?A)"
    by (simp add: build_prompt_def)
  have ctx: "str_replace1 ''Context:\<newline>'' [] (''Context:\<newline>'' @ context) = context"
    using split_once_at_start [of "''Context:\<newline>''" "context"]
    by (simp add: str_replace1_def)
  have "\<not> str_contains ?A (question @ ''\<newline>\<newline>Answer'')"
    using assms(2) str_contains_drop_tail [of ?A question "''\<newline>\<newline>Answer''"] by auto
  then have "split_once ?A (question @ ?A @ []) = Some (question, [])"
    using split_once_first [of ?A question "[]"] by simp
  then have q: "str_replace1 ?A [] (question @ ?A) = question"
    by (simp add: str_replace1_def)
  show ?thesis
    unfolding extract_blocks_def Let_def list_index_split1_0 list_index_split1_1 parts
    by (simp only: option.case prod.case sum.case ctx q)
qed

text \<open>
  C7, as the code has it. For every context and question such that the marker
  \<open>\n\nQuestion:\n\<close> does not occur in the context taken with the newline that the template
  puts before it and after it, and the question does not contain \<open>\n\nAnswer:\<close>, the
  generator reads back from \<open>build_prompt context question\<close> exactly the context and the
  question, each trimmed of whitespace.
\<close>

theorem prompt_roundtrip:
  assumes "\<not> str_contains ''\<newline>\<newline>Question:\<newline>'' (''\<newline>'' @ context @ ''\<newline>'')"
    and "\<not> str_contains ''\<newline>\<newline>Answer:'' question"
  shows "extract_blocks (build_prompt context question)
           = Inr (str_strip context, str_strip question)"
  using assms by (rule extract_blocks_build_prompt)

theorem prompt_roundtrip_witness:
  "extract_blocks (build_prompt ''Rome. Built on hills.'' '' Where? '')
     = Inr (''Rome. Built on hills.'', ''Where?'')"
proof -
  have h1: "\<not> str_contains ''\<newline>\<newline>Question:\<newline>'' (''\<newline>'' @ ''Rome. Built on hills.'' @ ''\<newline>'')"
    by code_simp
  have h2: "\<not> str_contains ''\<newline>\<newline>Answer:'' '' Where? ''"
    by code_simp
  have s1: "str_strip ''Rome. Built on hills.'' = ''Rome. Built on hills.''" by code_simp
  have s2: "str_strip '' Where? '' = ''Where?''" by code_simp
  show ?thesis
    using prompt_roundtrip [OF h1 h2] unfolding s1 s2 .
qed

text \<open>
  C7 as stated fails: the context \<open>a\n\nQuestion:\<close> holds none of the three markers, but
  with the newline that the template puts after it the marker \<open>\n\nQuestion:\n\<close> ends one
  character into the template's own marker, and the generator reads back the context \<open>a\<close>
  and the question \<open>Question:\nb\<close>.
\<close>

theorem prompt_roundtrip_counterexample:
  "\<not> str_contains ''Context:\<newline>'' ''a\<newline>\<newline>Question:''
   \<and> \<not> str_contains ''\<newline>\<newline>Question:\<newline>'' ''a\<newline>\<newline>Question:''
   \<and> \<not> str_contains ''\<newline>\<newline>Answer:'' ''a\<newline>\<newline>Question:''
   \<and> \<not> str_contains ''Context:\<newline>'' ''b''
   \<and> \<not> str_contains ''\<newline>\<newline>Question:\<newline>'' ''b''
   \<and> \<not> str_contains ''\<newline>\<newline>Answer:'' ''b''
   \<and> str_strip ''a\<newline>\<newline>Question:'' = ''a\<newline>\<newline>Question:''
   \<and> str_strip ''b'' = ''b''
   \<and> extract_blocks (build_prompt ''a\<newline>\<newline>Question:'' ''b'') = Inr (''a'', ''Question:\<newline>b'')"
  by code_simp

section \<open>The generator on a well-formed prompt\<close>

lemma first_sentence_of_spec: "first_sentence_of c = Inr (spec_first_sentence c)"
  by (simp add: first_sentence_of_def list_index_split_0 spec_first_sentence_def
        up_to_first_def Let_def)

lemma extract_blocks_total:
  assumes "str_contains ''\<newline>\<newline>Question:\<newline>'' prompt"
  shows "\<exists>c q. extract_blocks prompt = Inr (c, q)"
proof -
  from assms obtain b a where "split_once ''\<newline>\<newline>Question:\<newline>'' prompt = Some (b, a)"
    by (auto simp: str_contains_def)
  then show ?thesis
    unfolding extract_blocks_def Let_def list_index_split1_0 list_index_split1_1 by simp
qed

lemma build_context_paris: "build_context [paris_chunk] = paris_chunk"
  by code_simp

lemma paris_no_marker:
  "\<not> str_contains ''\<newline>\<newline>Question:\<newline>'' (''\<newline>'' @ paris_chunk @ ''\<newline>'')"
  by code_simp

lemma paris_first_sentence: "spec_first_sentence paris_chunk = ''Paris is the capital of France.''"
  by code_simp

lemma paris_strip: "str_strip paris_chunk = paris_chunk"
  by code_simp

lemma compose_paris:
  assumes "\<not> str_contains ''\<newline>\<newline>Answer:'' question"
  shows "compose [paris_chunk] question
           = (Inr (answer_text ''Paris is the capital of France.'' (str_strip question)),
              [Generated (build_prompt paris_chunk question)])"
proof -
  let ?prompt = "build_prompt paris_chunk question"
  have c: "str_contains ''Context:\<newline>'' ?prompt"
    using str_contains_append [of "''Context:\<newline>''" "[]"] by (simp add: build_prompt_def)
  have q: "str_contains ''\<newline>\<newline>Question:\<newline>'' ?prompt"
    using str_contains_append [of "''\<newline>\<newline>Question:\<newline>''" "''Context:\<newline>'' @ paris_chunk"]
    by (simp add: build_prompt_def)
  have e: "extract_blocks ?prompt = Inr (paris_chunk, str_strip question)"
    using extract_blocks_build_prompt [OF paris_no_marker assms] by (simp add: paris_strip)
  have "placeholder_llm ?prompt
          = Inr (answer_text ''Paris is the capital of France.'' (str_strip question))"
    unfolding placeholder_llm_def using c q
    by (simp add: e first_sentence_of_spec paris_first_sentence)
  then show ?thesis
    by (simp add: compose_def build_context_paris Let_def)
qed

text \<open>
  C6, as the code has it. For every prompt that holds both markers, the generator answers
  with the fixed sentence around the first sentence of the context block and the question
  block that it read from the prompt, the first sentence being the text up to the first
  \<open>. \<close> or to the end of the block, trimmed of whitespace, with a period appended if absent.
  Composing the single chunk of the scenario with any question that does not contain
  \<open>\n\nAnswer:\<close> gives an answer that contains \<open>Paris is the capital of France.\<close> and the
  question trimmed of whitespace.
\<close>

theorem placeholder_llm_first_sentence:
  "(str_contains ''Context:\<newline>'' prompt \<and> str_contains ''\<newline>\<newline>Question:\<newline>'' prompt \<longrightarrow>
      (\<exists>c q. extract_blocks prompt = Inr (c, q)
         \<and> placeholder_llm prompt
             = Inr (''Based on the context: '' @ spec_first_sentence c @ '' In answer to \"'' @ q
                    @ ''\": The relevant information is in the context above.'')))
   \<and> (\<not> str_contains ''\<newline>\<newline>Answer:'' question \<longrightarrow>
      (\<exists>answer. fst (compose [''Paris is the capital of France. It is known for the Eiffel Tower.'']
                        question) = Inr answer
         \<and> answer = ''Based on the context: Paris is the capital of France. In answer to \"''
                    @ str_strip question
                    @ ''\": The relevant information is in the context above.''
         \<and> str_contains ''Paris is the capital of France.'' answer
         \<and> str_contains (str_strip question) answer))"
proof (intro conjI impI)
  assume wf: "str_contains ''Context:\<newline>'' prompt \<and> str_contains ''\<newline>\<newline>Question:\<newline>'' prompt"
  then obtain c q where e: "extract_blocks prompt = Inr (c, q)"
    using extract_blocks_total by blast
  have "placeholder_llm prompt = Inr (answer_text (spec_first_sentence c) q)"
    unfolding placeholder_llm_def using wf by (simp add: e first_sentence_of_spec)
  with e show "\<exists>c q. extract_blocks prompt = Inr (c, q)
         \<and> placeholder_llm prompt
             = Inr (''Based on the context: '' @ spec_first_sentence c @ '' In answer to \"'' @ q
                    @ ''\": The relevant information is in the context above.'')"
    unfolding answer_text_def by blast
next
  assume nm: "\<not> str_contains ''\<newline>\<newline>Answer:'' question"
  let ?answer = "''Based on the context: Paris is the capital of France. In answer to \"''
                    @ str_strip question
                    @ ''\": The relevant information is in the context above.''"
  have a: "fst (compose [''Paris is the capital of France. It is known for the Eiffel Tower.'']
                  question) = Inr ?answer"
    using compose_paris [OF nm] by (simp add: paris_chunk_def answer_text_def)
  have "?answer = ''Based on the context: '' @ ''Paris is the capital of France.''
                    @ ('' In answer to \"'' @ str_strip question
                       @ ''\": The relevant information is in the context above.'')"
    by simp
  then have p: "str_contains ''Paris is the capital of France.'' ?answer"
    using str_contains_append [of "''Paris is the capital of France.''" "''Based on the context: ''"]
    by (simp only:)
  have q: "str_contains (str_strip question) ?answer"
    by (rule str_contains_append)
  from a p q show "\<exists>answer. fst (compose [''Paris is the capital of France. It is known for the Eiffel Tower.'']
                        question) = Inr answer
         \<and> answer = ?answer
         \<and> str_contains ''Paris is the capital of France.'' answer
         \<and> str_contains (str_strip question) answer"
    by blast
qed

theorem placeholder_llm_first_sentence_witness:
  "placeholder_llm ''Context:\<newline>A cat . A dog.\<newline>\<newline>Question:\<newline>Who?\<newline>\<newline>Answer:''
     = Inr ''Based on the context: A cat. In answer to \"Who?\": The relevant information is in the context above.''
   \<and> fst (compose [''Paris is the capital of France. It is known for the Eiffel Tower.'']
             ''What is Paris known for?'')
     = Inr ''Based on the context: Paris is the capital of France. In answer to \"What is Paris known for?\": The relevant information is in the context above.''"
proof -
  let ?prompt = "''Context:\<newline>A cat . A dog.\<newline>\<newline>Question:\<newline>Who?\<newline>\<newline>Answer:''"
  let ?question = "''What is Paris known for?''"
  note t = placeholder_llm_first_sentence [of ?prompt ?question]
  have h1: "str_contains ''Context:\<newline>'' ?prompt \<and> str_contains ''\<newline>\<newline>Question:\<newline>'' ?prompt"
    by code_simp
  have h2: "\<not> str_contains ''\<newline>\<newline>Answer:'' ?question"
    by code_simp
  have e: "extract_blocks ?prompt = Inr (''A cat . A dog.'', ''Who?'')" by code_simp
  have f: "spec_first_sentence ''A cat . A dog.'' = ''A cat.''" by code_simp
  have s: "str_strip ?question = ?question" by code_simp
  from t [THEN conjunct1, rule_format, OF h1] obtain c q
    where "extract_blocks ?prompt = Inr (c, q)"
      and "placeholder_llm ?prompt
             = Inr (''Based on the context: '' @ spec_first_sentence c @ '' In answer to \"'' @ q
                    @ ''\": The relevant information is in the context above.'')"
    by blast
  with e f have a: "placeholder_llm ?prompt
     = Inr ''Based on the context: A cat. In answer to \"Who?\": The relevant information is in the context above.''"
    by simp
  from t [THEN conjunct2, rule_format, OF h2] have b: "fst (compose [''Paris is the capital of France. It is known for the Eiffel Tower.''] ?question)
     = Inr ''Based on the context: Paris is the capital of France. In answer to \"What is Paris known for?\": The relevant information is in the context above.''"
    unfolding s by auto
  from a b show ?thesis by (rule conjI)
qed

text \<open>
  C6 as stated fails: the question \<open> Why?\<close>, with a space in front, holds none of the
  markers, and the answer restates \<open>Why?\<close> without the space, so the question text is not
  in the answer.
\<close>

theorem placeholder_llm_first_sentence_counterexample:
  "\<not> str_contains ''Context:\<newline>'' '' Why?''
   \<and> \<not> str_contains ''\<newline>\<newline>Question:\<newline>'' '' Why?''
   \<and> \<not> str_contains ''\<newline>\<newline>Answer:'' '' Why?''
   \<and> fst (compose [''Paris is the capital of France. It is known for the Eiffel Tower.'']
             '' Why?'')
     = Inr ''Based on the context: Paris is the capital of France. In answer to \"Why?\": The relevant information is in the context above.''
   \<and> \<not> str_contains '' Why?''
         ''Based on the context: Paris is the capital of France. In answer to \"Why?\": The relevant information is in the context above.''"
  by code_simp

end
